theory Spec2Isabelle
  imports Main "HOL-Library.Word" "HOL-Library.Multiset"
begin

section \<open>Errors and machine integers\<close>

text \<open>
  Every error value that the two source files return, the run-time panic of an
  out-of-range slice index, and the errors of the collaborators (numbered, since the
  collaborators are outside the two files).
\<close>

datatype error =
    errOverflow
  | errPChainHeightTooLow
  | errPChainHeightNotReached
  | errInnerParentMismatch
  | errProposersNotActivated
  | errTimeNotMonotonic
  | errTimeTooAdvanced
  | errUnexpectedBlockType
  | ErrNotFound
  | ErrNotOracle
  | panicIndexOutOfRange
  | collaboratorError nat

type_synonym uint64 = "64 word"

text \<open>
  \<open>time.Duration\<close> is an \<open>int64\<close> count of nanoseconds: a 64-bit word whose value is
  read with \<open>sint\<close>; \<open>+\<close> wraps around as Go's does. Go's \<open>int\<close> (64 bits on the
  platforms the node runs on) is an \<open>int\<close> here, and the conversion \<open>int(weight)\<close> of a
  \<open>uint64\<close> is \<open>sint\<close>: totals above \<open>2^63 - 1\<close> come out negative.
\<close>

type_synonym Duration = "64 word"

definition Second :: Duration where
  "Second = 1000000000"

section \<open>The windower (vms/proposervm/proposer/windower.go)\<close>

definition maxWindows :: int where
  "maxWindows = 5"

definition windowDuration :: Duration where
  "windowDuration = 3 * Second"

text \<open>
  \<open>validatorData\<close>, the element of \<open>validatorsSlice\<close>. An identity (\<open>ids.ShortID\<close>, a
  20-byte array compared bytewise) is any linearly ordered type.
\<close>

record 'id validatorData =
  id_v :: 'id
  weight_v :: uint64

text \<open>
  Modelled from the spec: \<open>math.Add64\<close> (utils/math) is not among the source files.
  The spec calls it overflow-checked addition whose overflow is an error.
\<close>

definition Add64 :: "uint64 \<Rightarrow> uint64 \<Rightarrow> error + uint64" where
  "Add64 a b = (if unat a + unat b < 2 ^ 64 then Inr (a + b) else Inl errOverflow)"

text \<open>
  Modelled from the spec: the sampler (utils/sampler) is not among the source files.
  The spec describes a deterministic, seeded, weighted sampler without replacement that
  takes an ordered weight sequence and an integer seed and returns an ordered sequence of
  indices. The sampler object that the windower keeps between calls therefore holds the
  weights of the last \<open>Initialize\<close> and the seed of the last \<open>Seed\<close>, and \<open>Sample\<close>
  computes its answer from these two and the requested count. Which weights
  \<open>Initialize\<close> refuses and which sequence \<open>Sample\<close> draws (or which error it returns)
  are parameters, \<open>init_error\<close> and \<open>draw\<close>. The field \<open>requested\<close> is a log of the
  counts with which \<open>Sample\<close> has been called.
\<close>

record sampler_state =
  weights_s :: "uint64 list"
  seed_s :: int
  requested :: "int list"

record sampler_impl =
  init_error :: "uint64 list \<Rightarrow> error option"
  draw :: "uint64 list \<Rightarrow> int \<Rightarrow> int \<Rightarrow> error + int list"

definition Initialize :: "sampler_impl \<Rightarrow> uint64 list \<Rightarrow> sampler_state \<Rightarrow> error + sampler_state" where
  "Initialize smp ws s =
     (case init_error smp ws of
        Some e \<Rightarrow> Inl e
      | None \<Rightarrow> Inr (s\<lparr>weights_s := ws\<rparr>))"

definition Seed :: "int \<Rightarrow> sampler_state \<Rightarrow> sampler_state" where
  "Seed h s = s\<lparr>seed_s := h\<rparr>"

definition Sample :: "sampler_impl \<Rightarrow> int \<Rightarrow> sampler_state \<Rightarrow> (error + int list) \<times> sampler_state" where
  "Sample smp n s = (draw smp (weights_s s) (seed_s s) n, s\<lparr>requested := requested s @ [n]\<rparr>)"

text \<open>
  Lines 55 to 67: the loop over the validator map. A Go map is a finite map; \<open>range\<close>
  visits every key once, in an order that changes from run to run. The order of one run
  is the key list \<open>ks\<close>. Each step appends the pair to the slice and adds the weight to
  the running total with \<open>Add64\<close>, leaving with the error on overflow.
\<close>

fun flatten :: "('id \<rightharpoonup> uint64) \<Rightarrow> 'id list \<Rightarrow> 'id validatorData list \<Rightarrow> uint64
    \<Rightarrow> error + ('id validatorData list \<times> uint64)" where
  "flatten m [] validators weight = Inr (validators, weight)"
| "flatten m (k # ks) validators weight =
     (case m k of
        None \<Rightarrow> flatten m ks validators weight
      | Some v \<Rightarrow>
          (case Add64 weight v of
             Inl e \<Rightarrow> Inl e
           | Inr newWeight \<Rightarrow>
               flatten m ks (validators @ [\<lparr>id_v = k, weight_v = v\<rparr>]) newWeight))"

text \<open>
  \<open>range_order m ks\<close>: the key list \<open>ks\<close> is an order in which \<open>range\<close> can visit the
  map \<open>m\<close>.
\<close>

definition range_order :: "('id \<rightharpoonup> uint64) \<Rightarrow> 'id list \<Rightarrow> bool" where
  "range_order m ks \<longleftrightarrow> distinct ks \<and> set ks = dom m"

text \<open>
  Modelled from the spec: \<open>validatorsSlice\<close> and its \<open>Less\<close> are not among the source
  files; the spec has the slice sorted ascending by identity. The identities of a map are
  distinct, so every sorting algorithm gives the same slice.
\<close>

definition sort_validators :: "('id::linorder) validatorData list \<Rightarrow> 'id validatorData list" where
  "sort_validators validators = sort_key id_v validators"

text \<open>Lines 84 to 87.\<close>

definition numToSample :: "uint64 \<Rightarrow> int" where
  "numToSample weight = (if (word_of_int maxWindows :: uint64) < weight then sint weight else maxWindows)"

text \<open>
  Lines 96 to 104: the walk over the sampled indices. \<open>validators[index]\<close> panics when
  the index is outside the slice.
\<close>

fun walk :: "'id validatorData list \<Rightarrow> 'id \<Rightarrow> int list \<Rightarrow> Duration \<Rightarrow> error + Duration" where
  "walk validators validatorID [] delay = Inr delay"
| "walk validators validatorID (index # indices) delay =
     (if index < 0 \<or> int (length validators) \<le> index then Inl panicIndexOutOfRange
      else if id_v (validators ! nat index) = validatorID then Inr delay
      else walk validators validatorID indices (delay + windowDuration))"

text \<open>
  Lines 55 to 72 together: the slice sorted by identity, with the total weight.
\<close>

definition sortedValidators :: "('id::linorder \<rightharpoonup> uint64) \<Rightarrow> 'id list
    \<Rightarrow> error + ('id validatorData list \<times> uint64)" where
  "sortedValidators validatorsMap ks =
     (case flatten validatorsMap ks [] 0 of
        Inl e \<Rightarrow> Inl e
      | Inr (unsorted, weight) \<Rightarrow> Inr (sort_validators unsorted, weight))"

text \<open>
  \<open>Delay\<close>. \<open>GetValidatorSet\<close> is the collaborator \<open>w.vm.GetValidatorSet\<close> at the
  windower's subnet; \<open>ks\<close> is the order in which this call's \<open>range\<close> visits the map;
  \<open>s\<close> is the state of the windower's sampler before the call. The result is what the
  call returns, with the state of the sampler after it.
\<close>

definition Delay :: "sampler_impl \<Rightarrow> (uint64 \<Rightarrow> error + ('id::linorder \<rightharpoonup> uint64)) \<Rightarrow> 'id list
    \<Rightarrow> sampler_state \<Rightarrow> uint64 \<Rightarrow> uint64 \<Rightarrow> 'id \<Rightarrow> (error + Duration) \<times> sampler_state" where
  "Delay smp GetValidatorSet ks s chainHeight pChainHeight validatorID =
     (case GetValidatorSet pChainHeight of
        Inl e \<Rightarrow> (Inl e, s)
      | Inr validatorsMap \<Rightarrow>
          (case sortedValidators validatorsMap ks of
             Inl e \<Rightarrow> (Inl e, s)
           | Inr (validators, weight) \<Rightarrow>
               (let validatorWeights = map weight_v validators
                in case Initialize smp validatorWeights s of
                     Inl e \<Rightarrow> (Inl e, s)
                   | Inr s1 \<Rightarrow>
                       (let s2 = Seed (sint chainHeight) s1
                        in case Sample smp (numToSample weight) s2 of
                             (Inl e, s3) \<Rightarrow> (Inl e, s3)
                           | (Inr indices, s3) \<Rightarrow>
                               (walk validators validatorID indices 0, s3)))))"

subsection \<open>What the snapshot and the sampler are, for the statements\<close>

text \<open>The pairs of the map in the order \<open>ks\<close>, and the weight of one identity.\<close>

definition pairs :: "('id \<rightharpoonup> uint64) \<Rightarrow> 'id list \<Rightarrow> 'id validatorData list" where
  "pairs m ks =
     concat (map (\<lambda>k. case m k of None \<Rightarrow> [] | Some v \<Rightarrow> [\<lparr>id_v = k, weight_v = v\<rparr>]) ks)"

definition weight_of :: "('id \<rightharpoonup> uint64) \<Rightarrow> 'id \<Rightarrow> nat" where
  "weight_of m k = (case m k of None \<Rightarrow> 0 | Some v \<Rightarrow> unat v)"

text \<open>The exact sum of the weights of a snapshot, a natural number.\<close>

definition totalWeight :: "('id \<rightharpoonup> uint64) \<Rightarrow> nat" where
  "totalWeight m = (\<Sum>k\<in>dom m. weight_of m k)"

text \<open>The weights that \<open>Delay\<close> hands to the sampler: those of the sorted slice.\<close>

definition canonicalWeights :: "('id::linorder \<rightharpoonup> uint64) \<Rightarrow> 'id list \<Rightarrow> uint64 list" where
  "canonicalWeights m ks = map weight_v (sort_validators (pairs m ks))"

text \<open>
  Modelled from the spec: what the absent sampler returns. The spec has it draw, without
  replacement, from a population in which a validator of weight \<open>w\<close> occupies \<open>w\<close>
  slots, an index sequence of the requested length capped at the population size:
  \<open>weighted_sample ws n indices\<close> says that \<open>indices\<close> is such an answer to a request
  for \<open>n\<close> indices over the weights \<open>ws\<close>.
\<close>

definition weighted_sample :: "uint64 list \<Rightarrow> int \<Rightarrow> int list \<Rightarrow> bool" where
  "weighted_sample ws n indices \<longleftrightarrow>
     int (length indices) = min n (int (sum_list (map unat ws))) \<and>
     (\<forall>i\<in>set indices. 0 \<le> i \<and> i < int (length ws)) \<and>
     (\<forall>j\<in>set [0..<length ws]. count_list indices (int j) \<le> unat (ws ! j))"

text \<open>
  One sampler of that kind, to run the model on concrete inputs: it never refuses, and
  it lists the weight units in slice order, rotated by the seed. It stands for no code of
  the repository.
\<close>

definition units :: "uint64 list \<Rightarrow> int list" where
  "units ws = concat (map (\<lambda>j. replicate (unat (ws ! j)) (int j)) [0..<length ws])"

definition example_sampler :: sampler_impl where
  "example_sampler =
     \<lparr>init_error = (\<lambda>ws. None),
      draw = (\<lambda>ws h n. Inr (take (nat n) (rotate (nat (h mod int (length (units ws)))) (units ws))))\<rparr>"

text \<open>
  The same sampler behind a check at \<open>Initialize\<close>: a sampler that counts its population
  in an \<open>int64\<close> refuses weights whose total exceeds the largest \<open>int64\<close>.
\<close>

definition checked_sampler :: sampler_impl where
  "checked_sampler =
     \<lparr>init_error = (\<lambda>ws. if sum_list (map unat ws) < 2 ^ 63 then None else Some (collaboratorError 1)),
      draw = draw example_sampler\<rparr>"

definition fresh_sampler :: sampler_state where
  "fresh_sampler = \<lparr>weights_s = [], seed_s = 0, requested = []\<rparr>"

text \<open>Snapshots to run the model on.\<close>

definition skewed :: "nat \<rightharpoonup> uint64" where
  "skewed = [10 \<mapsto> 4, 20 \<mapsto> 1]"

definition three_units :: "nat \<rightharpoonup> uint64" where
  "three_units = [10 \<mapsto> 1, 20 \<mapsto> 1, 30 \<mapsto> 1]"

definition overflowing :: "nat \<rightharpoonup> uint64" where
  "overflowing = [10 \<mapsto> 18446744073709551615, 20 \<mapsto> 1]"

definition too_heavy :: "nat \<rightharpoonup> uint64" where
  "too_heavy = [10 \<mapsto> 9223372036854775808]"

definition seven :: "nat \<rightharpoonup> uint64" where
  "seven = [10 \<mapsto> 4, 20 \<mapsto> 3]"

definition billions :: "nat \<rightharpoonup> uint64" where
  "billions = [10 \<mapsto> 3074457346]"

section \<open>The pre-fork block (vms/proposervm/pre_fork_block.go)\<close>

text \<open>
  An identity (\<open>ids.ID\<close>) is only compared for equality: a natural number. An instant
  (\<open>time.Time\<close>) is a point of a linear time line, an integer; \<open>Before\<close> and \<open>After\<close>
  are the strict orders and \<open>Add\<close> is addition.
\<close>

type_synonym ID = nat
type_synonym Time = int

datatype Status = Unknown | Processing | Rejected | Accepted

text \<open>
  \<open>snowman.Block\<close>, the wrapped chain's block: the data its methods \<open>ID\<close>, \<open>Parent\<close>
  and \<open>Timestamp\<close> return. What its methods \<open>Status\<close> and \<open>Verify\<close> return is decided
  by the wrapped chain, see \<open>VM\<close>.
\<close>

record innerBlock =
  ID_blk :: ID
  Parent_blk :: ID
  Timestamp_blk :: Time

text \<open>
  \<open>postForkBlock\<close>: the identity, P-chain height and timestamp of its \<open>SignedBlock\<close>,
  what \<open>SignedBlock.Verify(shouldHaveProposer, chainID)\<close> returns at the chain's
  identity, and the wrapped inner block.
\<close>

record postForkBlock =
  ID_child :: ID
  PChainHeight_child :: uint64
  Timestamp_child :: Time
  SignedBlock_Verify :: "bool \<Rightarrow> error option"
  innerBlk :: innerBlock

record postForkOption =
  ID_option :: ID
  innerBlk_option :: innerBlock

record preForkBlock =
  Block :: innerBlock

text \<open>
  The \<open>VM\<close> that a block points to. Configuration: \<open>activationTime\<close>,
  \<open>minimumPChainHeight\<close>, \<open>maxSkew\<close> (a constant declared outside the file, taken as
  a parameter). Collaborators, by what they return during the call: the clock
  \<open>vm.Time()\<close>, \<open>ctx.ValidatorState.GetCurrentHeight()\<close>, \<open>vm.GetLastAccepted()\<close>,
  the wrapped chain's \<open>Status\<close> and \<open>Verify\<close> of a block, and \<open>verifyIsNotOracleBlock\<close>
  (declared outside the file). State: \<open>verifiedBlocks\<close>, and \<open>Tree\<close>.
  \<open>innerVerifyCalls\<close> is a log of the calls of the wrapped chain's \<open>Verify\<close>.
\<close>

record VM =
  activationTime :: Time
  minimumPChainHeight :: uint64
  maxSkew :: int
  Time_vm :: Time
  GetCurrentHeight :: "error + uint64"
  GetLastAccepted :: "error + ID"
  Status_inner :: "innerBlock \<Rightarrow> Status"
  Verify_inner :: "innerBlock \<Rightarrow> error option"
  verifyIsNotOracleBlock :: "innerBlock \<Rightarrow> error option"
  Tree :: "innerBlock set"
  verifiedBlocks :: "ID \<rightharpoonup> postForkBlock"
  innerVerifyCalls :: "innerBlock list"

text \<open>
  Modelled from the spec: \<open>Tree\<close> (vms/proposervm/tree) is not among the source files.
  The spec has it be the set of inner blocks that already passed the wrapped chain's
  verification; \<open>Contains\<close> is its membership test and \<open>Add\<close> its insertion.
\<close>

definition Tree_Contains :: "innerBlock set \<Rightarrow> innerBlock \<Rightarrow> bool" where
  [simp]: "Tree_Contains t blk \<longleftrightarrow> blk \<in> t"

definition Tree_Add :: "innerBlock \<Rightarrow> innerBlock set \<Rightarrow> innerBlock set" where
  [simp]: "Tree_Add blk t = insert blk t"

text \<open>Lines 217 to 238.\<close>

definition verifyIsPreForkBlock :: "VM \<Rightarrow> preForkBlock \<Rightarrow> error option" where
  "verifyIsPreForkBlock vm b =
     (if Status_inner vm (Block b) = Accepted then
        (case GetLastAccepted vm of
           Inr lastAccepted \<Rightarrow> Some errUnexpectedBlockType
         | Inl err \<Rightarrow> if err \<noteq> ErrNotFound then Some err else None)
      else if Tree_Contains (Tree vm) (Block b) then Some errUnexpectedBlockType
      else None)"

text \<open>
  Lines 88 to 140 of \<open>verifyPostForkChild\<close>: the checks that come before the inner
  block's verification, in the order of the source. They change no state.
\<close>

definition lineageChecks :: "VM \<Rightarrow> preForkBlock \<Rightarrow> postForkBlock \<Rightarrow> error option" where
  "lineageChecks vm b child =
     (case verifyIsNotOracleBlock vm (Block b) of
        Some err \<Rightarrow> Some err
      | None \<Rightarrow>
     (case verifyIsPreForkBlock vm b of
        Some err \<Rightarrow> Some err
      | None \<Rightarrow>
     (case GetCurrentHeight vm of
        Inl err \<Rightarrow> Some err
      | Inr currentPChainHeight \<Rightarrow>
          if PChainHeight_child child > currentPChainHeight then Some errPChainHeightNotReached
          else if PChainHeight_child child < minimumPChainHeight vm then Some errPChainHeightTooLow
          else if Parent_blk (innerBlk child) \<noteq> ID_blk (Block b) then Some errInnerParentMismatch
          else if Timestamp_blk (Block b) < activationTime vm then Some errProposersNotActivated
          else if Timestamp_child child < Timestamp_blk (Block b) then Some errTimeNotMonotonic
          else if Timestamp_child child > Time_vm vm + maxSkew vm then Some errTimeTooAdvanced
          else SignedBlock_Verify child False)))"

text \<open>
  \<open>verifyPostForkChild\<close>: the checks, then lines 147 to 155. The result is the error
  returned (\<open>None\<close> for \<open>nil\<close>) and the \<open>VM\<close> after the call.
\<close>

definition verifyPostForkChild :: "VM \<Rightarrow> preForkBlock \<Rightarrow> postForkBlock \<Rightarrow> error option \<times> VM" where
  "verifyPostForkChild vm b child =
     (case lineageChecks vm b child of
        Some err \<Rightarrow> (Some err, vm)
      | None \<Rightarrow>
          if \<not> Tree_Contains (Tree vm) (innerBlk child) then
            (let vm1 = vm\<lparr>innerVerifyCalls := innerVerifyCalls vm @ [innerBlk child]\<rparr>
             in case Verify_inner vm (innerBlk child) of
                  Some err \<Rightarrow> (Some err, vm1)
                | None \<Rightarrow>
                    (None, vm1\<lparr>Tree := Tree_Add (innerBlk child) (Tree vm1),
                               verifiedBlocks := (verifiedBlocks vm1)(ID_child child \<mapsto> child)\<rparr>))
          else (None, vm\<lparr>verifiedBlocks := (verifiedBlocks vm)(ID_child child \<mapsto> child)\<rparr>))"

text \<open>Lines 158 to 160.\<close>

definition verifyPostForkOption :: "VM \<Rightarrow> preForkBlock \<Rightarrow> postForkOption \<Rightarrow> error option \<times> VM" where
  "verifyPostForkOption vm b child = (Some errUnexpectedBlockType, vm)"

text \<open>Lines 213 to 215.\<close>

definition pChainHeight :: "VM \<Rightarrow> preForkBlock \<Rightarrow> uint64 \<times> error option" where
  "pChainHeight vm b = (0, None)"

text \<open>A configuration and blocks to run the model on.\<close>

definition example_vm :: VM where
  "example_vm =
     \<lparr>activationTime = 1000, minimumPChainHeight = 10, maxSkew = 10, Time_vm = 1005,
      GetCurrentHeight = Inr 50, GetLastAccepted = Inl ErrNotFound,
      Status_inner = (\<lambda>blk. Processing), Verify_inner = (\<lambda>blk. None),
      verifyIsNotOracleBlock = (\<lambda>blk. None),
      Tree = {}, verifiedBlocks = Map.empty, innerVerifyCalls = []\<rparr>"

definition example_parent :: "Time \<Rightarrow> preForkBlock" where
  "example_parent t = \<lparr>Block = \<lparr>ID_blk = 1, Parent_blk = 0, Timestamp_blk = t\<rparr>\<rparr>"

definition example_inner :: innerBlock where
  "example_inner = \<lparr>ID_blk = 2, Parent_blk = 1, Timestamp_blk = 1003\<rparr>"

definition example_child :: "ID \<Rightarrow> postForkBlock" where
  "example_child i =
     \<lparr>ID_child = i, PChainHeight_child = 20, Timestamp_child = 1003,
      SignedBlock_Verify = (\<lambda>shouldHaveProposer. if shouldHaveProposer then Some (collaboratorError 0) else None),
      innerBlk = example_inner\<rparr>"

section \<open>Properties of the windower\<close>

lemma weight_of_None: "m k = None \<Longrightarrow> weight_of m k = 0"
  by (simp add: weight_of_def)

lemma weight_of_Some: "m k = Some v \<Longrightarrow> weight_of m k = unat v"
  by (simp add: weight_of_def)

lemma pairs_Nil [simp]: "pairs m [] = []"
  by (simp add: pairs_def)

lemma pairs_Cons: "pairs m (k # ks) = (case m k of None \<Rightarrow> [] | Some v \<Rightarrow> [\<lparr>id_v = k, weight_v = v\<rparr>]) @ pairs m ks"
  by (simp add: pairs_def)

lemma flatten_eq:
  "flatten m ks vs w =
     (if unat w + sum_list (map (weight_of m) ks) < 2 ^ 64
      then Inr (vs @ pairs m ks, w + of_nat (sum_list (map (weight_of m) ks)))
      else Inl errOverflow)"
proof (induction ks arbitrary: vs w)
  case Nil
  then show ?case using unsigned_less [of w, where 'a = nat] by simp
next
  case (Cons k ks)
  show ?case
  proof (cases "m k")
    case None
    then show ?thesis using Cons.IH [of vs w] by (simp add: pairs_Cons weight_of_None)
  next
    case (Some v)
    show ?thesis
    proof (cases "unat w + unat v < 2 ^ 64")
      case True
      then have u: "unat (w + v) = unat w + unat v"
        using unat_add_lem [of w v] by simp
      show ?thesis
        using Some True Cons.IH [of "vs @ [\<lparr>id_v = k, weight_v = v\<rparr>]" "w + v"]
        by (simp add: pairs_Cons weight_of_Some Add64_def u add.assoc)
    next
      case False
      then show ?thesis using Some by (simp add: weight_of_Some Add64_def)
    qed
  qed
qed

lemma sum_weights_range_order:
  "range_order m ks \<Longrightarrow> sum_list (map (weight_of m) ks) = totalWeight m"
  by (simp add: range_order_def totalWeight_def sum_list_distinct_conv_sum_set)

lemma id_v_pairs: "map id_v (pairs m ks) = filter (\<lambda>k. m k \<noteq> None) ks"
  by (induction ks) (auto simp: pairs_Cons split: option.splits)

lemma mset_pairs: "mset ks = mset ks' \<Longrightarrow> mset (pairs m ks) = mset (pairs m ks')"
proof -
  assume ms: "mset ks = mset ks'"
  have "mset (pairs m ks) = sum_mset (image_mset (\<lambda>k. mset (case m k of None \<Rightarrow> [] | Some v \<Rightarrow> [\<lparr>id_v = k, weight_v = v\<rparr>])) (mset ks))" for ks
    by (induction ks) (simp_all add: pairs_Cons)
  then show ?thesis using ms by simp
qed

lemma sort_validators_range_order:
  assumes "range_order m ks" and "range_order m ks'"
  shows "sort_validators (pairs m ks) = sort_validators (pairs m ks')"
proof -
  have ms: "mset ks = mset ks'"
    using assms by (simp add: range_order_def set_eq_iff_mset_eq_distinct [symmetric])
  have "distinct (map id_v (pairs m ks))"
    using assms(1) by (simp add: id_v_pairs range_order_def)
  then have "inj_on id_v (set (pairs m ks))"
    by (simp add: distinct_map)
  then show ?thesis
    unfolding sort_validators_def using mset_pairs [OF ms] by (rule sort_key_eq_sort_key [rotated])
qed

lemma walk_eq:
  "\<forall>i\<in>set indices. 0 \<le> i \<and> i < int (length vs) \<Longrightarrow>
   walk vs vid indices d =
     Inr (d + of_nat (length (takeWhile (\<lambda>i. id_v (vs ! nat i) \<noteq> vid) indices)) * windowDuration)"
  by (induction indices arbitrary: d) (auto simp: algebra_simps)


lemma sum_list_mset_cong:
  "mset ks = mset ks' \<Longrightarrow> sum_list (map (f :: 'a \<Rightarrow> nat) ks) = sum_list (map f ks')"
  by (metis mset_map sum_mset_sum_list)

lemma sortedValidators_eq:
  assumes "range_order m ks"
  shows "sortedValidators m ks =
     (if totalWeight m < 2 ^ 64
      then Inr (sort_validators (pairs m ks), of_nat (totalWeight m))
      else Inl errOverflow)"
  using sum_weights_range_order [OF assms]
  by (simp add: sortedValidators_def flatten_eq)

lemma Delay_eq:
  assumes "GetValidatorSet pHeight = Inr m" and "range_order m ks"
  shows "Delay smp GetValidatorSet ks s chainHeight pHeight validatorID =
     (if totalWeight m < 2 ^ 64 then
        (case init_error smp (canonicalWeights m ks) of
           Some e \<Rightarrow> (Inl e, s)
         | None \<Rightarrow>
             (case draw smp (canonicalWeights m ks) (sint chainHeight) (numToSample (of_nat (totalWeight m))) of
                Inl e \<Rightarrow> Inl e
              | Inr indices \<Rightarrow> walk (sort_validators (pairs m ks)) validatorID indices 0,
              s\<lparr>weights_s := canonicalWeights m ks, seed_s := sint chainHeight,
                requested := requested s @ [numToSample (of_nat (totalWeight m))]\<rparr>))
      else (Inl errOverflow, s))"
  using assms(1)
  by (simp add: Delay_def sortedValidators_eq [OF assms(2)] canonicalWeights_def Initialize_def
      Seed_def Sample_def Let_def split: option.splits sum.splits)

lemma Delay_state_independent:
  "fst (Delay smp GetValidatorSet ks s chainHeight pHeight validatorID) =
   fst (Delay smp GetValidatorSet ks s' chainHeight pHeight validatorID)"
  by (simp add: Delay_def Initialize_def Seed_def Sample_def Let_def
      split: option.splits sum.splits prod.splits)

lemma Delay_order_independent:
  assumes "GetValidatorSet pHeight = Inr m" and "range_order m ks" and "range_order m ks'"
  shows "Delay smp GetValidatorSet ks s chainHeight pHeight validatorID =
         Delay smp GetValidatorSet ks' s chainHeight pHeight validatorID"
proof -
  have cw: "canonicalWeights m ks = canonicalWeights m ks'"
    by (simp add: canonicalWeights_def sort_validators_range_order [OF assms(2,3)])
  show ?thesis
    unfolding Delay_eq [where GetValidatorSet = GetValidatorSet and m = m, OF assms(1,2)]
      Delay_eq [where GetValidatorSet = GetValidatorSet and m = m, OF assms(1,3)] cw
      sort_validators_range_order [OF assms(2,3)] ..
qed

lemma weighted_sample_covers:
  assumes ws: "weighted_sample ws n indices"
    and n: "int (sum_list (map unat ws)) \<le> n"
    and j: "j < length ws" "0 < unat (ws ! j)"
  shows "int j \<in> set indices"
proof (rule ccontr)
  assume notin: "int j \<notin> set indices"
  have len: "length indices = sum_list (map unat ws)"
    using ws n by (simp add: weighted_sample_def)
  have sub: "set indices \<subseteq> int ` {..<length ws}"
  proof
    fix i assume "i \<in> set indices"
    then have "0 \<le> i \<and> i < int (length ws)"
      using ws by (simp add: weighted_sample_def)
    then have "nat i < length ws \<and> i = int (nat i)" by auto
    then show "i \<in> int ` {..<length ws}" by blast
  qed
  have "sum_list (map (\<lambda>_. 1::nat) indices) = (\<Sum>x\<in>int ` {..<length ws}. count_list indices x * 1)"
    using sub by (rule sum_list_map_eq_sum_count2) simp
  also have "\<dots> = (\<Sum>i<length ws. count_list indices (int i))"
    by (simp add: sum.reindex)
  finally have A: "length indices = (\<Sum>i<length ws. count_list indices (int i))"
    by (simp add: sum_list_triv)
  have B: "sum_list (map unat ws) = (\<Sum>i<length ws. unat (ws ! i))"
    by (simp add: sum_list_sum_nth lessThan_atLeast0)
  have le: "\<forall>i\<in>{..<length ws}. count_list indices (int i) \<le> unat (ws ! i)"
    using ws by (simp add: weighted_sample_def)
  have "count_list indices (int j) < unat (ws ! j)"
    using notin j by (simp add: count_notin)
  then have "\<exists>i\<in>{..<length ws}. count_list indices (int i) < unat (ws ! i)"
    using j by blast
  then have "(\<Sum>i<length ws. count_list indices (int i)) < (\<Sum>i<length ws. unat (ws ! i))"
    using le by (intro sum_strict_mono_ex1) simp_all
  then show False using A B len by simp
qed

lemma takeWhile_stops:
  "\<exists>x\<in>set xs. \<not> P x \<Longrightarrow> length (takeWhile P xs) < length xs"
  by (induction xs) auto

lemma sum_weights_pairs:
  "sum_list (map (\<lambda>v. unat (weight_v v)) (pairs m ks)) = sum_list (map (weight_of m) ks)"
  by (induction ks) (simp_all add: pairs_Cons weight_of_def split: option.splits)

lemma sum_canonicalWeights:
  assumes "range_order m ks"
  shows "sum_list (map unat (canonicalWeights m ks)) = totalWeight m"
proof -
  have "sum_list (map unat (canonicalWeights m ks))
      = sum_list (map (\<lambda>v. unat (weight_v v)) (sort_key id_v (pairs m ks)))"
    by (simp add: canonicalWeights_def sort_validators_def comp_def)
  also have "\<dots> = sum_list (map (\<lambda>v. unat (weight_v v)) (pairs m ks))"
    by (rule sum_list_mset_cong) simp
  finally show ?thesis
    by (simp add: sum_weights_pairs sum_weights_range_order [OF assms])
qed

lemma set_sort_validators: "set (sort_validators vs) = set vs"
  by (simp add: sort_validators_def)

lemma length_canonicalWeights: "length (canonicalWeights m ks) = length (sort_validators (pairs m ks))"
  by (simp add: canonicalWeights_def)

lemma pairs_member:
  "k \<in> set ks \<Longrightarrow> m k = Some v \<Longrightarrow> \<lparr>id_v = k, weight_v = v\<rparr> \<in> set (pairs m ks)"
  by (induction ks) (auto simp: pairs_Cons split: option.splits)

lemma pairs_ids: "x \<in> set (pairs m ks) \<Longrightarrow> m (id_v x) \<noteq> None"
proof -
  assume "x \<in> set (pairs m ks)"
  then have "id_v x \<in> set (map id_v (pairs m ks))" by simp
  then show ?thesis unfolding id_v_pairs by simp
qed

lemma slot_of_validator:
  assumes "range_order m ks" and "m validatorID = Some w"
  shows "\<exists>j<length (canonicalWeights m ks).
           id_v (sort_validators (pairs m ks) ! j) = validatorID \<and> canonicalWeights m ks ! j = w"
proof -
  have "validatorID \<in> set ks"
    using assms by (auto simp: range_order_def)
  then have "\<lparr>id_v = validatorID, weight_v = w\<rparr> \<in> set (sort_validators (pairs m ks))"
    using assms(2) by (simp add: set_sort_validators pairs_member)
  then obtain j where "j < length (sort_validators (pairs m ks))"
      and "sort_validators (pairs m ks) ! j = \<lparr>id_v = validatorID, weight_v = w\<rparr>"
    by (auto simp: in_set_conv_nth)
  then show ?thesis
    by (auto simp: canonicalWeights_def)
qed

lemma sint_of_int_fits:
  "- (2 ^ 63) \<le> x \<Longrightarrow> x < 2 ^ 63 \<Longrightarrow> sint (word_of_int x :: 64 word) = x"
  by (simp add: sint_sbintrunc' signed_take_bit_int_eq_self)

lemma unat_of_nat_fits:
  "W < 2 ^ 64 \<Longrightarrow> unat (of_nat W :: uint64) = W"
  by (simp add: unat_of_nat)

lemma numToSample_fits:
  assumes "W < 2 ^ 63"
  shows "numToSample (of_nat W) = max 5 (int W)"
proof -
  have u: "unat (of_nat W :: uint64) = W"
    using assms by (simp add: unat_of_nat_fits)
  have lt: "(5 :: uint64) < of_nat W \<longleftrightarrow> 5 < W"
    using u by (simp add: word_less_nat_alt)
  have "sint (word_of_int (int W) :: uint64) = int W"
    by (rule sint_of_int_fits) (use assms in simp_all)
  then have "sint (of_nat W :: uint64) = int W"
    by simp
  then show ?thesis
    using lt by (simp add: numToSample_def maxWindows_def)
qed

lemma sint_windows:
  assumes "k \<le> 3074457345"
  shows "sint (of_nat k * windowDuration :: Duration) = int k * 3000000000"
proof -
  have "sint (word_of_int (int k * 3000000000) :: Duration) = int k * 3000000000"
    by (rule sint_of_int_fits) (use assms in simp_all)
  then show ?thesis
    by (simp add: windowDuration_def Second_def)
qed

lemma example_init: "init_error example_sampler ws = None"
  by (simp add: example_sampler_def)

lemma skewed_range_order: "range_order skewed [20, 10]"
  by (auto simp: range_order_def skewed_def)

lemma skewed_totalWeight: "totalWeight skewed = 5"
  by (simp add: totalWeight_def weight_of_def skewed_def)

lemma skewed_canonicalWeights: "canonicalWeights skewed [20, 10] = [4, 1]"
  by (simp add: canonicalWeights_def pairs_def sort_validators_def skewed_def)

lemma skewed_sortedValidators:
  "sortedValidators skewed [20, 10]
     = Inr ([\<lparr>id_v = 10, weight_v = 4\<rparr>, \<lparr>id_v = 20, weight_v = 1\<rparr>], 5)"
  by (simp add: sortedValidators_def Add64_def sort_validators_def skewed_def)

lemma numToSample_5: "numToSample 5 = 5"
  by (simp add: numToSample_def maxWindows_def)

lemma skewed_draw_0: "draw example_sampler [4, 1] 0 5 = Inr [0, 0, 0, 0, 1]"
  by code_simp

lemma skewed_draw_3: "draw example_sampler [4, 1] 3 5 = Inr [0, 1, 0, 0, 0]"
  by code_simp

lemma skewed_sample_0: "weighted_sample [4, 1] 5 [0, 0, 0, 0, 1]"
  by (simp add: weighted_sample_def)

lemma skewed_sample_3: "weighted_sample [4, 1] 5 [0, 1, 0, 0, 0]"
  by (simp add: weighted_sample_def)

lemma three_range_order: "range_order three_units [30, 10, 20]" "range_order three_units [20, 30, 10]"
  by (auto simp: range_order_def three_units_def)

lemma three_totalWeight: "totalWeight three_units = 3"
  by (simp add: totalWeight_def weight_of_def three_units_def)

lemma three_pairs:
  "sort_validators (pairs three_units [30, 10, 20])
     = [\<lparr>id_v = 10, weight_v = 1\<rparr>, \<lparr>id_v = 20, weight_v = 1\<rparr>, \<lparr>id_v = 30, weight_v = 1\<rparr>]"
  by (simp add: pairs_def sort_validators_def three_units_def)

lemma three_canonicalWeights: "canonicalWeights three_units [30, 10, 20] = [1, 1, 1]"
  by (simp add: canonicalWeights_def three_pairs)

lemma three_sortedValidators:
  "sortedValidators three_units [30, 10, 20]
     = Inr ([\<lparr>id_v = 10, weight_v = 1\<rparr>, \<lparr>id_v = 20, weight_v = 1\<rparr>, \<lparr>id_v = 30, weight_v = 1\<rparr>], 3)"
  by (simp add: sortedValidators_def Add64_def sort_validators_def three_units_def)

lemma numToSample_3: "numToSample 3 = 5"
  by (simp add: numToSample_def maxWindows_def)

lemma three_draw_42: "draw example_sampler [1, 1, 1] 42 5 = Inr [0, 1, 2]"
  by code_simp

lemma three_draw_43: "draw example_sampler [1, 1, 1] 43 5 = Inr [1, 2, 0]"
  by code_simp

lemma three_Delay:
  "Delay example_sampler (\<lambda>h. Inr three_units) [30, 10, 20] fresh_sampler 43 100 10
     = (Inr 6000000000, \<lparr>weights_s = [1, 1, 1], seed_s = 43, requested = [5]\<rparr>)"
  by (simp add: Delay_def three_sortedValidators Initialize_def Seed_def Sample_def numToSample_3
      three_draw_43 fresh_sampler_def example_init windowDuration_def Second_def)

lemma gvs_three: "(\<lambda>h::uint64. Inr three_units :: error + (nat \<rightharpoonup> uint64)) 100 = Inr three_units"
  by simp

lemma Delay_never_sampled:
  fixes m :: "'id::linorder \<rightharpoonup> uint64"
  assumes gvs: "GetValidatorSet pHeight = Inr m" and ro: "range_order m ks"
    and fits: "totalWeight m < 2 ^ 64"
    and init: "init_error smp (canonicalWeights m ks) = None"
    and drawn: "draw smp (canonicalWeights m ks) (sint chainHeight)
                  (numToSample (of_nat (totalWeight m))) = Inr indices"
    and inrange: "\<forall>i\<in>set indices. 0 \<le> i \<and> i < int (length (canonicalWeights m ks))"
    and absent: "m validatorID = None \<or>
                 (\<forall>i\<in>set indices. id_v (sort_validators (pairs m ks) ! nat i) \<noteq> validatorID)"
  shows "fst (Delay smp GetValidatorSet ks s chainHeight pHeight validatorID)
           = Inr (of_nat (length indices) * windowDuration)"
proof -
  let ?vs = "sort_validators (pairs m ks)"
  have r: "\<forall>i\<in>set indices. 0 \<le> i \<and> i < int (length ?vs)"
    using inrange by (simp add: length_canonicalWeights)
  have never: "\<forall>i\<in>set indices. id_v (?vs ! nat i) \<noteq> validatorID"
  proof (cases "m validatorID")
    case None
    show ?thesis
    proof
      fix i assume "i \<in> set indices"
      then have "nat i < length ?vs" using r by auto
      then have "?vs ! nat i \<in> set (pairs m ks)"
        using nth_mem [of "nat i" ?vs] by (simp add: set_sort_validators)
      then have "m (id_v (?vs ! nat i)) \<noteq> None" by (rule pairs_ids)
      then show "id_v (?vs ! nat i) \<noteq> validatorID" using None by auto
    qed
  next
    case (Some w)
    then show ?thesis using absent by simp
  qed
  then have tw: "takeWhile (\<lambda>i. id_v (?vs ! nat i) \<noteq> validatorID) indices = indices"
    by simp
  have "fst (Delay smp GetValidatorSet ks s chainHeight pHeight validatorID)
      = walk ?vs validatorID indices 0"
    using fits
    by (simp add: Delay_eq [where GetValidatorSet = GetValidatorSet and m = m, OF gvs ro] init drawn)
  also have "\<dots> = Inr (of_nat (length indices) * windowDuration)"
    using walk_eq [OF r, of validatorID 0] by (simp add: tw)
  finally show ?thesis .
qed

lemma Delay_requests:
  fixes m :: "'id::linorder \<rightharpoonup> uint64"
  assumes "GetValidatorSet pHeight = Inr m" and "range_order m ks"
  shows "requested (snd (Delay smp GetValidatorSet ks s chainHeight pHeight validatorID)) =
           (if totalWeight m < 2 ^ 64 \<and> init_error smp (canonicalWeights m ks) = None
            then requested s @ [numToSample (of_nat (totalWeight m))]
            else requested s)"
  by (auto simp add: Delay_eq [where GetValidatorSet = GetValidatorSet and m = m, OF assms(1,2)]
        split: option.splits)

lemma checked_init:
  "init_error checked_sampler ws = (if sum_list (map unat ws) < 2 ^ 63 then None else Some (collaboratorError 1))"
  by (simp add: checked_sampler_def)

lemma seven_facts:
  "range_order seven [20, 10]" "totalWeight seven = 7" "canonicalWeights seven [20, 10] = [4, 3]"
  by (auto simp: range_order_def seven_def totalWeight_def weight_of_def canonicalWeights_def pairs_def
      sort_validators_def)

lemma too_heavy_facts:
  "range_order too_heavy [10]" "totalWeight too_heavy = 9223372036854775808"
  "canonicalWeights too_heavy [10] = [9223372036854775808]"
  by (auto simp: range_order_def too_heavy_def totalWeight_def weight_of_def canonicalWeights_def pairs_def
      sort_validators_def)

lemma billions_facts:
  "range_order billions [10]" "totalWeight billions = 3074457346"
  "canonicalWeights billions [10] = [3074457346]" "billions 40 = None"
  by (auto simp: range_order_def billions_def totalWeight_def weight_of_def canonicalWeights_def pairs_def
      sort_validators_def)

lemma gvs_at:
  "(\<lambda>h::uint64. Inr m :: error + (nat \<rightharpoonup> uint64)) 100 = Inr m"
  by simp

lemma billions_draw:
  "draw checked_sampler [3074457346] 0 3074457346 = Inr (replicate 3074457346 0)"
  by (simp add: checked_sampler_def example_sampler_def units_def)

lemma numToSample_billions: "numToSample 3074457346 = 3074457346"
  by (simp add: numToSample_def maxWindows_def)

subsection \<open>The claims about the windower\<close>

text \<open>
  C1, as amended. Take a snapshot of total weight at most \<open>2^63 - 1\<close> (so that the
  count \<open>int(weight)\<close> does not wrap) in which \<open>validatorID\<close> holds positive weight, and
  let the sampler accept the weights and answer the request with a weighted sample
  without replacement. Then \<open>Delay\<close> returns no error but the duration of \<open>k\<close> windows
  with \<open>0 \<le> k < totalWeight\<close>, whether the total weight is at most 5 or not; up to a
  total weight of 3074457345 the \<open>int64\<close> duration does not wrap either, and it is
  \<open>k \<times> 3\<close> seconds exactly: a non-negative multiple of 3 seconds, strictly below
  \<open>totalWeight \<times> 3s\<close>. The bound of the number of distinct validators does not hold, see
  the counterexample.
\<close>

theorem Delay_coverage:
  fixes m :: "'id::linorder \<rightharpoonup> uint64"
  assumes gvs: "GetValidatorSet pHeight = Inr m"
    and ro: "range_order m ks"
    and pos: "m validatorID = Some w" "0 < w"
    and bound: "totalWeight m < 2 ^ 63"
    and init: "init_error smp (canonicalWeights m ks) = None"
    and drawn: "draw smp (canonicalWeights m ks) (sint chainHeight)
                  (numToSample (of_nat (totalWeight m))) = Inr indices"
    and sample: "weighted_sample (canonicalWeights m ks) (numToSample (of_nat (totalWeight m))) indices"
  shows "\<exists>k<totalWeight m.
           fst (Delay smp GetValidatorSet ks s chainHeight pHeight validatorID)
             = Inr (of_nat k * windowDuration) \<and>
           (totalWeight m \<le> 3074457345 \<longrightarrow>
              sint (of_nat k * windowDuration :: Duration) = int k * 3000000000)"
proof -
  let ?vs = "sort_validators (pairs m ks)"
  let ?ws = "canonicalWeights m ks"
  let ?P = "\<lambda>i. id_v (?vs ! nat i) \<noteq> validatorID"
  let ?k = "length (takeWhile ?P indices)"
  have n: "numToSample (of_nat (totalWeight m)) = max 5 (int (totalWeight m))"
    using bound by (rule numToSample_fits)
  have total: "sum_list (map unat ?ws) = totalWeight m"
    by (rule sum_canonicalWeights [OF ro])
  have len: "length indices = totalWeight m"
    using sample by (simp add: weighted_sample_def n total)
  have inrange: "\<forall>i\<in>set indices. 0 \<le> i \<and> i < int (length ?vs)"
    using sample by (simp add: weighted_sample_def length_canonicalWeights)
  obtain j where j: "j < length ?ws" "id_v (?vs ! j) = validatorID" "?ws ! j = w"
    using slot_of_validator [OF ro pos(1)] by blast
  have "0 < unat (?ws ! j)"
    using j(3) pos(2) by (simp add: word_greater_zero_iff unat_gt_0)
  then have "int j \<in> set indices"
    using sample j(1) by (intro weighted_sample_covers [where n = "numToSample (of_nat (totalWeight m))"])
      (simp_all add: n total)
  then have "\<exists>i\<in>set indices. \<not> ?P i"
    using j(2) by force
  then have "?k < length indices"
    by (rule takeWhile_stops)
  then have k: "?k < totalWeight m"
    using len by simp
  have "totalWeight m < 2 ^ 64"
    using bound by simp
  then have "fst (Delay smp GetValidatorSet ks s chainHeight pHeight validatorID)
      = walk ?vs validatorID indices 0"
    by (simp add: Delay_eq [where GetValidatorSet = GetValidatorSet and m = m, OF gvs ro] init drawn)
  also have "\<dots> = Inr (of_nat ?k * windowDuration)"
    using walk_eq [OF inrange, of validatorID 0] by simp
  finally have d: "fst (Delay smp GetValidatorSet ks s chainHeight pHeight validatorID)
      = Inr (of_nat ?k * windowDuration)" .
  have "sint (of_nat ?k * windowDuration :: Duration) = int ?k * 3000000000"
    if "totalWeight m \<le> 3074457345"
    using k that by (intro sint_windows) simp
  then show ?thesis
    using k d by blast
qed

text \<open>
  The snapshot \<open>{10: 4, 20: 1}\<close> has total weight 5 and two validators. The sample
  \<open>[0, 0, 0, 0, 1]\<close> is a weighted sample without replacement of its five units, and with
  it validator 20, of positive weight, gets 12 seconds, not less than \<open>2 \<times> 3\<close> seconds.
\<close>

theorem Delay_coverage_counterexample:
  "totalWeight skewed \<le> 5 \<and>
   skewed 20 = Some 1 \<and>
   card (dom skewed) = 2 \<and>
   draw example_sampler (canonicalWeights skewed [20, 10]) (sint (0::uint64))
     (numToSample (of_nat (totalWeight skewed))) = Inr [0, 0, 0, 0, 1] \<and>
   weighted_sample (canonicalWeights skewed [20, 10])
     (numToSample (of_nat (totalWeight skewed))) [0, 0, 0, 0, 1] \<and>
   fst (Delay example_sampler (\<lambda>h. Inr skewed) [20, 10] fresh_sampler 0 100 20)
     = Inr 12000000000 \<and>
   \<not> sint (12000000000 :: Duration) < int (card (dom skewed)) * 3000000000"
proof -
  have c: "card (dom skewed) = 2" "skewed 20 = Some 1"
    by (simp_all add: skewed_def)
  have d: "fst (Delay example_sampler (\<lambda>h. Inr skewed) [20, 10] fresh_sampler 0 100 20)
     = Inr 12000000000"
    by (simp add: Delay_def skewed_sortedValidators Initialize_def Seed_def Sample_def numToSample_5
        skewed_draw_0 fresh_sampler_def example_init windowDuration_def Second_def)
  have s: "\<not> sint (12000000000 :: Duration) < (2::int) * 3000000000"
    by simp
  show ?thesis
    using c d s
    by (simp add: skewed_totalWeight skewed_canonicalWeights numToSample_5 skewed_draw_0 skewed_sample_0)
qed

theorem Delay_coverage_witness:
  "range_order skewed [20, 10] \<and>
   skewed 20 = Some 1 \<and> (0::uint64) < 1 \<and>
   totalWeight skewed \<le> 3074457345 \<and>
   init_error example_sampler (canonicalWeights skewed [20, 10]) = None \<and>
   draw example_sampler (canonicalWeights skewed [20, 10]) (sint (3::uint64))
     (numToSample (of_nat (totalWeight skewed))) = Inr [0, 1, 0, 0, 0] \<and>
   weighted_sample (canonicalWeights skewed [20, 10])
     (numToSample (of_nat (totalWeight skewed))) [0, 1, 0, 0, 0] \<and>
   (\<exists>k<totalWeight skewed.
      fst (Delay example_sampler (\<lambda>h. Inr skewed) [20, 10] fresh_sampler 3 100 20)
        = Inr (of_nat k * windowDuration) \<and>
      sint (of_nat k * windowDuration :: Duration) = int k * 3000000000)"
proof -
  have h1: "(\<lambda>h::uint64. Inr skewed :: error + (nat \<rightharpoonup> uint64)) 100 = Inr skewed"
    by simp
  have h3: "skewed 20 = Some 1" "(0::uint64) < 1"
    by (simp_all add: skewed_def)
  have h4: "totalWeight skewed < 2 ^ 63"
    by (simp add: skewed_totalWeight)
  have h4': "totalWeight skewed \<le> 3074457345"
    by (simp add: skewed_totalWeight)
  have h5: "init_error example_sampler (canonicalWeights skewed [20, 10]) = None"
    by (rule example_init)
  have h6: "draw example_sampler (canonicalWeights skewed [20, 10]) (sint (3::uint64))
     (numToSample (of_nat (totalWeight skewed))) = Inr [0, 1, 0, 0, 0]"
    by (simp add: skewed_totalWeight skewed_canonicalWeights numToSample_5 skewed_draw_3)
  have h7: "weighted_sample (canonicalWeights skewed [20, 10]) (numToSample (of_nat (totalWeight skewed))) [0, 1, 0, 0, 0]"
    by (simp add: skewed_totalWeight skewed_canonicalWeights numToSample_5 skewed_sample_3)
  show ?thesis
    using skewed_range_order h3 h4' h5 h6 h7
      Delay_coverage [where GetValidatorSet = "\<lambda>h. Inr skewed" and pHeight = 100 and s = fresh_sampler,
        OF h1 skewed_range_order h3 h4 h5 h6 h7]
    by blast
qed

text \<open>
  C2. \<open>Delay\<close> is deterministic: two calls with the same chain height, P-chain height
  and identity, on the same answer of \<open>GetValidatorSet\<close> (an error, or a snapshot), return
  the same result, in whatever orders \<open>ks\<close> and \<open>ks'\<close> the two calls range over the map
  and in whatever states \<open>s\<close> and \<open>s'\<close> earlier calls have left the sampler.
\<close>

theorem Delay_deterministic:
  fixes GetValidatorSet :: "uint64 \<Rightarrow> error + ('id::linorder \<rightharpoonup> uint64)"
  assumes "\<forall>m. GetValidatorSet pHeight = Inr m \<longrightarrow> range_order m ks \<and> range_order m ks'"
  shows "fst (Delay smp GetValidatorSet ks s chainHeight pHeight validatorID) =
         fst (Delay smp GetValidatorSet ks' s' chainHeight pHeight validatorID)"
proof (cases "GetValidatorSet pHeight")
  case (Inl e)
  then show ?thesis by (simp add: Delay_def)
next
  case (Inr m)
  then have ro: "range_order m ks" "range_order m ks'"
    using assms by simp_all
  have "Delay smp GetValidatorSet ks s chainHeight pHeight validatorID =
        Delay smp GetValidatorSet ks' s chainHeight pHeight validatorID"
    using Inr ro by (rule Delay_order_independent)
  then show ?thesis
    using Delay_state_independent [of smp GetValidatorSet ks' s chainHeight pHeight validatorID s']
    by simp
qed

theorem Delay_deterministic_witness:
  "range_order three_units [30, 10, 20] \<and> range_order three_units [20, 30, 10] \<and>
   fst (Delay example_sampler (\<lambda>h. Inr three_units) [30, 10, 20] fresh_sampler 43 100 10) = Inr 6000000000 \<and>
   fst (Delay example_sampler (\<lambda>h. Inr three_units) [20, 30, 10]
          \<lparr>weights_s = [7, 7], seed_s = 99, requested = [2]\<rparr> 43 100 10) = Inr 6000000000"
proof -
  have h: "\<forall>m. (\<lambda>h. Inr three_units) (100::uint64) = (Inr m :: error + (nat \<rightharpoonup> uint64)) \<longrightarrow>
        range_order m [30, 10, 20] \<and> range_order m [20, 30, 10]"
    by (simp add: three_range_order)
  show ?thesis
    using three_range_order three_Delay
      Delay_deterministic [where GetValidatorSet = "\<lambda>h. Inr three_units" and pHeight = 100
        and ks = "[30, 10, 20]" and ks' = "[20, 30, 10]"
        and smp = example_sampler and s = fresh_sampler
        and chainHeight = 43 and validatorID = 10
        and s' = "\<lparr>weights_s = [7, 7], seed_s = 99, requested = [2]\<rparr>", OF h]
    by simp
qed

text \<open>
  C3. In every call of \<open>Delay\<close> that reaches the sampler's \<open>Sample\<close>, the count
  requested is \<open>max(5, totalWeight)\<close>: 5 when the total weight of the snapshot is at most
  5, the total weight otherwise. \<open>Sample\<close> is called once when the sampler's \<open>Initialize\<close>
  (line 80, before the count is computed) accepts the weights, and not at all when it
  refuses them. The sampler is one that refuses weights whose total exceeds the largest
  \<open>int64\<close>, so that the conversion \<open>int(weight)\<close> of line 86 is never applied to such a
  total.
\<close>

theorem Delay_request_count:
  fixes m :: "'id::linorder \<rightharpoonup> uint64"
  assumes "GetValidatorSet pHeight = Inr m" and "range_order m ks"
    and "2 ^ 63 \<le> totalWeight m \<longrightarrow> init_error smp (canonicalWeights m ks) \<noteq> None"
  shows "requested (snd (Delay smp GetValidatorSet ks s chainHeight pHeight validatorID)) =
           (if init_error smp (canonicalWeights m ks) = None
            then requested s @ [max 5 (int (totalWeight m))]
            else requested s)"
proof (cases "init_error smp (canonicalWeights m ks) = None")
  case True
  then have small: "totalWeight m < 2 ^ 63"
    using assms(3) by auto
  then have "totalWeight m < 2 ^ 64"
    by simp
  then show ?thesis
    using True numToSample_fits [OF small] by (simp add: Delay_requests [where GetValidatorSet = GetValidatorSet and m = m, OF assms(1,2)])
next
  case False
  then show ?thesis
    by (auto simp add: Delay_requests [where GetValidatorSet = GetValidatorSet and m = m, OF assms(1,2)])
qed

theorem Delay_request_count_witness:
  "range_order three_units [30, 10, 20] \<and>
   init_error checked_sampler (canonicalWeights three_units [30, 10, 20]) = None \<and>
   requested (snd (Delay checked_sampler (\<lambda>h. Inr three_units) [30, 10, 20] fresh_sampler 43 100 10))
     = [5] \<and>
   range_order seven [20, 10] \<and> int (totalWeight seven) = 7 \<and>
   init_error checked_sampler (canonicalWeights seven [20, 10]) = None \<and>
   requested (snd (Delay checked_sampler (\<lambda>h. Inr seven) [20, 10] fresh_sampler 43 100 10))
     = [7] \<and>
   range_order too_heavy [10] \<and> 2 ^ 63 \<le> totalWeight too_heavy \<and>
   init_error checked_sampler (canonicalWeights too_heavy [10]) = Some (collaboratorError 1) \<and>
   requested (snd (Delay checked_sampler (\<lambda>h. Inr too_heavy) [10] fresh_sampler 43 100 10))
     = []"
proof -
  have a: "init_error checked_sampler (canonicalWeights three_units [30, 10, 20]) = None"
    by (simp add: checked_init three_canonicalWeights)
  have b: "init_error checked_sampler (canonicalWeights seven [20, 10]) = None"
    by (simp add: checked_init seven_facts)
  have c: "init_error checked_sampler (canonicalWeights too_heavy [10]) = Some (collaboratorError 1)"
    by (simp add: checked_init too_heavy_facts)
  have ga: "2 ^ 63 \<le> totalWeight three_units \<longrightarrow>
      init_error checked_sampler (canonicalWeights three_units [30, 10, 20]) \<noteq> None"
    by (simp add: three_totalWeight)
  have gb: "2 ^ 63 \<le> totalWeight seven \<longrightarrow>
      init_error checked_sampler (canonicalWeights seven [20, 10]) \<noteq> None"
    by (simp add: seven_facts)
  have gc: "2 ^ 63 \<le> totalWeight too_heavy \<longrightarrow>
      init_error checked_sampler (canonicalWeights too_heavy [10]) \<noteq> None"
    by (simp add: c)
  show ?thesis
    using a b c three_range_order(1) seven_facts(1) too_heavy_facts(1)
      Delay_request_count [where GetValidatorSet = "\<lambda>h. Inr three_units" and pHeight = 100
        and smp = checked_sampler and s = fresh_sampler and chainHeight = 43 and validatorID = 10,
        OF gvs_at three_range_order(1) ga]
      Delay_request_count [where GetValidatorSet = "\<lambda>h. Inr seven" and pHeight = 100
        and smp = checked_sampler and s = fresh_sampler and chainHeight = 43 and validatorID = 10,
        OF gvs_at seven_facts(1) gb]
      Delay_request_count [where GetValidatorSet = "\<lambda>h. Inr too_heavy" and pHeight = 100
        and smp = checked_sampler and s = fresh_sampler and chainHeight = 43 and validatorID = 10,
        OF gvs_at too_heavy_facts(1) gc]
    by (simp add: three_totalWeight seven_facts too_heavy_facts fresh_sampler_def)
qed

text \<open>
  C4, as amended. When the summation does not overflow, the sampler accepts the weights
  and returns indices inside the slice, and \<open>validatorID\<close> is the identity of none of the
  sampled indices (as is the case of every identity absent from the snapshot), \<open>Delay\<close>
  returns no error but the fully accumulated delay: the product of the number of sampled
  indices and the window in \<open>time.Duration\<close>'s wrapping arithmetic, which is the number
  of sampled indices times 3 seconds whenever at most 3074457345 indices are sampled. For
  the snapshot \<open>{10: 1, 20: 1, 30: 1}\<close> and three sampled indices, an absent identity
  gets 9 seconds: the witness. Beyond 3074457345 indices the \<open>int64\<close> wraps, see the
  counterexample.
\<close>

theorem Delay_absent:
  fixes m :: "'id::linorder \<rightharpoonup> uint64"
  assumes gvs: "GetValidatorSet pHeight = Inr m" and ro: "range_order m ks"
    and fits: "totalWeight m < 2 ^ 64"
    and init: "init_error smp (canonicalWeights m ks) = None"
    and drawn: "draw smp (canonicalWeights m ks) (sint chainHeight)
                  (numToSample (of_nat (totalWeight m))) = Inr indices"
    and inrange: "\<forall>i\<in>set indices. 0 \<le> i \<and> i < int (length (canonicalWeights m ks))"
    and absent: "m validatorID = None \<or>
                 (\<forall>i\<in>set indices. id_v (sort_validators (pairs m ks) ! nat i) \<noteq> validatorID)"
  shows "fst (Delay smp GetValidatorSet ks s chainHeight pHeight validatorID)
           = Inr (of_nat (length indices) * windowDuration) \<and>
         (length indices \<le> 3074457345 \<longrightarrow>
            sint (of_nat (length indices) * windowDuration :: Duration)
              = int (length indices) * 3000000000)"
  using Delay_never_sampled [where GetValidatorSet = GetValidatorSet and m = m,
      OF gvs ro fits init drawn inrange absent]
    sint_windows [of "length indices"]
  by simp

theorem Delay_absent_witness:
  "range_order three_units [30, 10, 20] \<and> totalWeight three_units < 2 ^ 64 \<and>
   init_error example_sampler (canonicalWeights three_units [30, 10, 20]) = None \<and>
   draw example_sampler (canonicalWeights three_units [30, 10, 20]) (sint (42::uint64))
     (numToSample (of_nat (totalWeight three_units))) = Inr [0, 1, 2] \<and>
   length (canonicalWeights three_units [30, 10, 20]) = 3 \<and>
   three_units 40 = None \<and>
   length [0, 1, 2::int] \<le> 3074457345 \<and>
   fst (Delay example_sampler (\<lambda>h. Inr three_units) [30, 10, 20] fresh_sampler 42 100 40)
     = Inr 9000000000 \<and>
   sint (9000000000 :: Duration) = 3 * 3000000000"
proof -
  have h3: "totalWeight three_units < 2 ^ 64"
    by (simp add: three_totalWeight)
  have h5: "draw example_sampler (canonicalWeights three_units [30, 10, 20]) (sint (42::uint64))
     (numToSample (of_nat (totalWeight three_units))) = Inr [0, 1, 2]"
    by (simp add: three_totalWeight three_canonicalWeights numToSample_3 three_draw_42)
  have h6: "\<forall>i\<in>set [0, 1, 2]. 0 \<le> i \<and> i < int (length (canonicalWeights three_units [30, 10, 20]))"
    by (simp add: three_canonicalWeights)
  have h7: "three_units 40 = None"
    by (simp add: three_units_def)
  have h7': "three_units 40 = None \<or>
     (\<forall>i\<in>set [0, 1, 2]. id_v (sort_validators (pairs three_units [30, 10, 20]) ! nat i) \<noteq> 40)"
    using h7 by simp
  show ?thesis
    using three_range_order(1) h3 h5 h7 example_init [of "canonicalWeights three_units [30, 10, 20]"]
      three_canonicalWeights
      Delay_absent [where GetValidatorSet = "\<lambda>h. Inr three_units" and pHeight = 100
        and smp = example_sampler and s = fresh_sampler and chainHeight = 42 and validatorID = 40,
        OF gvs_three three_range_order(1) h3 example_init h5 h6 h7']
    by (simp add: windowDuration_def Second_def)
qed

text \<open>
  The snapshot \<open>{10: 3074457346}\<close> and the absent identity 40: the sampler accepts the
  weights and returns 3074457346 indices, all of validator 10, and \<open>Delay\<close> returns the
  wrapped duration of \<open>- 9223372035709551616\<close> nanoseconds, not 3074457346 times 3
  seconds.
\<close>

theorem Delay_absent_counterexample:
  "range_order billions [10] \<and> billions 40 = None \<and>
   init_error checked_sampler (canonicalWeights billions [10]) = None \<and>
   draw checked_sampler (canonicalWeights billions [10]) (sint (0::uint64))
     (numToSample (of_nat (totalWeight billions))) = Inr (replicate 3074457346 0) \<and>
   fst (Delay checked_sampler (\<lambda>h. Inr billions) [10] fresh_sampler 0 100 40)
     = Inr 9223372038000000000 \<and>
   sint (9223372038000000000 :: Duration) = - 9223372035709551616 \<and>
   sint (9223372038000000000 :: Duration) \<noteq> int (length (replicate 3074457346 (0::int))) * 3000000000"
proof -
  have i: "init_error checked_sampler (canonicalWeights billions [10]) = None"
    by (simp add: checked_init billions_facts)
  have d: "draw checked_sampler (canonicalWeights billions [10]) (sint (0::uint64))
     (numToSample (of_nat (totalWeight billions))) = Inr (replicate 3074457346 0)"
    by (simp add: billions_facts numToSample_billions billions_draw)
  have f: "totalWeight billions < 2 ^ 64"
    by (simp add: billions_facts)
  have r: "\<forall>i\<in>set (replicate 3074457346 (0::int)). 0 \<le> i \<and> i < int (length (canonicalWeights billions [10]))"
    by (simp add: billions_facts)
  have a: "billions 40 = None \<or>
     (\<forall>i\<in>set (replicate 3074457346 (0::int)). id_v (sort_validators (pairs billions [10]) ! nat i) \<noteq> 40)"
    by (simp add: billions_facts)
  have "fst (Delay checked_sampler (\<lambda>h. Inr billions) [10] fresh_sampler 0 100 40)
      = Inr (of_nat (length (replicate 3074457346 (0::int))) * windowDuration)"
    by (rule Delay_never_sampled [where GetValidatorSet = "\<lambda>h. Inr billions" and pHeight = 100
          and m = billions, OF gvs_at billions_facts(1) f i d r a])
  then have v: "fst (Delay checked_sampler (\<lambda>h. Inr billions) [10] fresh_sampler 0 100 40)
      = Inr 9223372038000000000"
    by (simp add: windowDuration_def Second_def)
  have s: "sint (9223372038000000000 :: Duration) = - 9223372035709551616"
    by simp
  show ?thesis
    using i d v s billions_facts by simp
qed

text \<open>
  C5. \<open>Delay\<close> does not depend on the order in which \<open>range\<close> visits the snapshot: for
  two orders \<open>ks\<close> and \<open>ks'\<close> of the same map, the sorted slice and total weight built by
  lines 55 to 72 are the same (also the overflow error, if any), and \<open>Delay\<close> returns
  the same result and leaves the sampler in the same state, for every identity and chain
  height.
\<close>

theorem Delay_ordering_stable:
  fixes m :: "'id::linorder \<rightharpoonup> uint64"
  assumes "GetValidatorSet pHeight = Inr m" and "range_order m ks" and "range_order m ks'"
  shows "sortedValidators m ks = sortedValidators m ks' \<and>
         Delay smp GetValidatorSet ks s chainHeight pHeight validatorID =
         Delay smp GetValidatorSet ks' s chainHeight pHeight validatorID"
  using Delay_order_independent [where GetValidatorSet = GetValidatorSet and m = m, OF assms]
  by (simp add: sortedValidators_eq [OF assms(2)] sortedValidators_eq [OF assms(3)]
      sort_validators_range_order [OF assms(2,3)])

theorem Delay_ordering_stable_witness:
  "range_order three_units [30, 10, 20] \<and> range_order three_units [20, 30, 10] \<and>
   sortedValidators three_units [20, 30, 10]
     = Inr ([\<lparr>id_v = 10, weight_v = 1\<rparr>, \<lparr>id_v = 20, weight_v = 1\<rparr>, \<lparr>id_v = 30, weight_v = 1\<rparr>], 3) \<and>
   Delay example_sampler (\<lambda>h. Inr three_units) [20, 30, 10] fresh_sampler 43 100 10
     = (Inr 6000000000, \<lparr>weights_s = [1, 1, 1], seed_s = 43, requested = [5]\<rparr>)"
  using three_range_order three_sortedValidators three_Delay
    Delay_ordering_stable [where GetValidatorSet = "\<lambda>h. Inr three_units" and pHeight = 100
      and smp = example_sampler and s = fresh_sampler and chainHeight = 43 and validatorID = 10,
      OF gvs_three three_range_order]
  by simp

text \<open>
  C6. When the weights of the snapshot sum past the 64-bit maximum, \<open>Delay\<close> returns
  \<open>errOverflow\<close> from the summation, before the sampler is touched; and whenever
  \<open>Delay\<close> returns a duration, the total weight accumulated by lines 55 to 67 is the
  exact sum of the weights of the snapshot.
\<close>

theorem Delay_overflow_checked:
  fixes m :: "'id::linorder \<rightharpoonup> uint64"
  assumes "GetValidatorSet pHeight = Inr m" and "range_order m ks"
  shows "(2 ^ 64 \<le> totalWeight m \<longrightarrow>
            Delay smp GetValidatorSet ks s chainHeight pHeight validatorID = (Inl errOverflow, s)) \<and>
         (fst (Delay smp GetValidatorSet ks s chainHeight pHeight validatorID) = Inr d \<longrightarrow>
            (\<exists>validators weight. sortedValidators m ks = Inr (validators, weight) \<and>
               unat weight = totalWeight m))"
proof (cases "totalWeight m < 2 ^ 64")
  case True
  then show ?thesis
    by (simp add: sortedValidators_eq [OF assms(2)] unat_of_nat_fits)
next
  case False
  then show ?thesis
    by (simp add: Delay_eq [where GetValidatorSet = GetValidatorSet and m = m, OF assms])
qed

theorem Delay_overflow_checked_witness:
  "range_order overflowing [20, 10] \<and> 2 ^ 64 \<le> totalWeight overflowing \<and>
   Delay example_sampler (\<lambda>h. Inr overflowing) [20, 10] fresh_sampler 43 100 10
     = (Inl errOverflow, fresh_sampler) \<and>
   range_order three_units [30, 10, 20] \<and>
   fst (Delay example_sampler (\<lambda>h. Inr three_units) [30, 10, 20] fresh_sampler 43 100 10)
     = Inr 6000000000 \<and>
   (\<exists>validators weight. sortedValidators three_units [30, 10, 20] = Inr (validators, weight) \<and>
      unat weight = totalWeight three_units)"
proof -
  have ro: "range_order overflowing [20, 10]"
    by (auto simp: range_order_def overflowing_def)
  have t: "2 ^ 64 \<le> totalWeight overflowing"
    by (simp add: totalWeight_def weight_of_def overflowing_def)
  have g: "(\<lambda>h::uint64. Inr overflowing :: error + (nat \<rightharpoonup> uint64)) 100 = Inr overflowing"
    by simp
  have d: "fst (Delay example_sampler (\<lambda>h. Inr three_units) [30, 10, 20] fresh_sampler 43 100 10)
     = Inr 6000000000"
    by (simp add: three_Delay)
  show ?thesis
    using ro t d three_range_order(1)
      Delay_overflow_checked [where GetValidatorSet = "\<lambda>h. Inr overflowing" and pHeight = 100
        and smp = example_sampler and s = fresh_sampler and chainHeight = 43 and validatorID = 10,
        OF g ro]
      Delay_overflow_checked [where GetValidatorSet = "\<lambda>h. Inr three_units" and pHeight = 100
        and smp = example_sampler and s = fresh_sampler and chainHeight = 43 and validatorID = 10
        and d = 6000000000,
        OF gvs_three three_range_order(1)]
    by blast
qed

section \<open>Properties of the pre-fork block\<close>

lemma lineageChecks_before_activation:
  "Timestamp_blk (Block b) < activationTime vm \<Longrightarrow> lineageChecks vm b child \<noteq> None"
  by (simp add: lineageChecks_def split: option.splits sum.splits)

text \<open>
  C8. For every pre-fork block, every post-fork option and every state of the \<open>VM\<close>,
  \<open>verifyPostForkOption\<close> returns \<open>errUnexpectedBlockType\<close> and leaves the state as it
  was: a pre-fork block is never the parent of a post-fork option.
\<close>

theorem verifyPostForkOption_rejects:
  "verifyPostForkOption vm b child = (Some errUnexpectedBlockType, vm)"
  by (simp add: verifyPostForkOption_def)

text \<open>
  C10. For every pre-fork block and every state, \<open>pChainHeight\<close> returns height 0 and
  no error.
\<close>

theorem pChainHeight_zero:
  "pChainHeight vm b = (0, None)"
  by (simp add: pChainHeight_def)

text \<open>
  C7. When the pre-fork block's timestamp is before the activation time,
  \<open>verifyPostForkChild\<close> never succeeds: it returns an error for every child, and when
  the oracle check, the pre-fork invariant, the two height bounds and the linkage check
  pass, the error is \<open>errProposersNotActivated\<close> and the state is unchanged.
\<close>

theorem verifyPostForkChild_before_activation:
  assumes "Timestamp_blk (Block b) < activationTime vm"
  shows "fst (verifyPostForkChild vm b child) \<noteq> None \<and>
         (verifyIsNotOracleBlock vm (Block b) = None \<and> verifyIsPreForkBlock vm b = None \<and>
          (\<exists>h. GetCurrentHeight vm = Inr h \<and> \<not> PChainHeight_child child > h) \<and>
          \<not> PChainHeight_child child < minimumPChainHeight vm \<and>
          Parent_blk (innerBlk child) = ID_blk (Block b)
          \<longrightarrow> verifyPostForkChild vm b child = (Some errProposersNotActivated, vm))"
proof -
  have "lineageChecks vm b child \<noteq> None"
    using assms by (rule lineageChecks_before_activation)
  then have a: "fst (verifyPostForkChild vm b child) \<noteq> None"
    by (auto simp: verifyPostForkChild_def)
  have b: "verifyPostForkChild vm b child = (Some errProposersNotActivated, vm)"
    if "verifyIsNotOracleBlock vm (Block b) = None" "verifyIsPreForkBlock vm b = None"
       "GetCurrentHeight vm = Inr h" "\<not> PChainHeight_child child > h"
       "\<not> PChainHeight_child child < minimumPChainHeight vm"
       "Parent_blk (innerBlk child) = ID_blk (Block b)" for h
  proof -
    have "lineageChecks vm b child = Some errProposersNotActivated"
      using that assms by (simp add: lineageChecks_def)
    then show ?thesis by (simp add: verifyPostForkChild_def)
  qed
  show ?thesis using a b by blast
qed

theorem verifyPostForkChild_before_activation_witness:
  "Timestamp_blk (Block (example_parent 900)) < activationTime example_vm \<and>
   verifyIsNotOracleBlock example_vm (Block (example_parent 900)) = None \<and>
   verifyIsPreForkBlock example_vm (example_parent 900) = None \<and>
   (\<exists>h. GetCurrentHeight example_vm = Inr h \<and> \<not> PChainHeight_child (example_child 7) > h) \<and>
   \<not> PChainHeight_child (example_child 7) < minimumPChainHeight example_vm \<and>
   Parent_blk (innerBlk (example_child 7)) = ID_blk (Block (example_parent 900)) \<and>
   verifyPostForkChild example_vm (example_parent 900) (example_child 7)
     = (Some errProposersNotActivated, example_vm)"
proof -
  have h: "Timestamp_blk (Block (example_parent 900)) < activationTime example_vm"
    by (simp add: example_parent_def example_vm_def)
  have p: "verifyIsNotOracleBlock example_vm (Block (example_parent 900)) = None \<and>
   verifyIsPreForkBlock example_vm (example_parent 900) = None \<and>
   (\<exists>h. GetCurrentHeight example_vm = Inr h \<and> \<not> PChainHeight_child (example_child 7) > h) \<and>
   \<not> PChainHeight_child (example_child 7) < minimumPChainHeight example_vm \<and>
   Parent_blk (innerBlk (example_child 7)) = ID_blk (Block (example_parent 900))"
    by (simp add: example_parent_def example_vm_def example_child_def example_inner_def
        verifyIsPreForkBlock_def)
  show ?thesis
    using h p verifyPostForkChild_before_activation [OF h, of "example_child 7"] by blast
qed

lemma calls_step:
  "innerVerifyCalls (snd (verifyPostForkChild vm b child)) = innerVerifyCalls vm \<or>
   (innerBlk child \<notin> Tree vm \<and>
    innerVerifyCalls (snd (verifyPostForkChild vm b child)) = innerVerifyCalls vm @ [innerBlk child])"
  by (simp add: verifyPostForkChild_def Let_def split: option.splits)

lemma calls_recorded:
  "innerBlk child \<in> Tree vm \<Longrightarrow>
   innerVerifyCalls (snd (verifyPostForkChild vm b child)) = innerVerifyCalls vm"
  using calls_step [of vm b child] by blast

lemma Tree_grows:
  "Tree vm \<subseteq> Tree (snd (verifyPostForkChild vm b child))"
  by (auto simp: verifyPostForkChild_def Let_def split: option.splits)

lemma Tree_after_success:
  "fst (verifyPostForkChild vm b child) = None \<Longrightarrow>
   innerBlk child \<in> Tree (snd (verifyPostForkChild vm b child))"
  by (auto simp: verifyPostForkChild_def Let_def split: option.splits if_splits)

text \<open>
  C9. Inner verification is idempotent. When the child's inner block is already in
  \<open>Tree\<close>, the wrapped chain's \<open>Verify\<close> is not called and the call returns what the
  checks before it return (success when they pass). When it is not in \<open>Tree\<close>, the
  checks pass and \<open>Verify\<close> succeeds, the call succeeds, \<open>Verify\<close> has been called
  once and the inner block is in \<open>Tree\<close>. So two verifications in a row of children that
  wrap the same inner block, the inner block already in \<open>Tree\<close> or the first verification
  a success, call \<open>Verify\<close> at most once in total, and not at all when the inner block
  was in \<open>Tree\<close> from the start.
\<close>

theorem verifyPostForkChild_idempotent:
  "(innerBlk child \<in> Tree vm \<longrightarrow>
      innerVerifyCalls (snd (verifyPostForkChild vm b child)) = innerVerifyCalls vm \<and>
      fst (verifyPostForkChild vm b child) = lineageChecks vm b child) \<and>
   (innerBlk child \<notin> Tree vm \<and> lineageChecks vm b child = None \<and>
    Verify_inner vm (innerBlk child) = None \<longrightarrow>
      fst (verifyPostForkChild vm b child) = None \<and>
      innerBlk child \<in> Tree (snd (verifyPostForkChild vm b child)) \<and>
      innerVerifyCalls (snd (verifyPostForkChild vm b child)) = innerVerifyCalls vm @ [innerBlk child]) \<and>
   (innerBlk child' = innerBlk child \<and>
    (innerBlk child \<in> Tree vm \<or> fst (verifyPostForkChild vm b child) = None) \<longrightarrow>
      length (innerVerifyCalls (snd (verifyPostForkChild (snd (verifyPostForkChild vm b child)) b' child')))
        \<le> length (innerVerifyCalls vm) + 1 \<and>
      (innerBlk child \<in> Tree vm \<longrightarrow>
        innerVerifyCalls (snd (verifyPostForkChild (snd (verifyPostForkChild vm b child)) b' child'))
          = innerVerifyCalls vm))"
proof (intro conjI impI)
  assume "innerBlk child \<in> Tree vm"
  then show "innerVerifyCalls (snd (verifyPostForkChild vm b child)) = innerVerifyCalls vm"
    by (rule calls_recorded)
next
  assume "innerBlk child \<in> Tree vm"
  then show "fst (verifyPostForkChild vm b child) = lineageChecks vm b child"
    by (simp add: verifyPostForkChild_def split: option.splits)
next
  assume a: "innerBlk child \<notin> Tree vm \<and> lineageChecks vm b child = None \<and>
    Verify_inner vm (innerBlk child) = None"
  then show "fst (verifyPostForkChild vm b child) = None"
    by (simp add: verifyPostForkChild_def Let_def)
  from a show "innerBlk child \<in> Tree (snd (verifyPostForkChild vm b child))"
    by (simp add: verifyPostForkChild_def Let_def)
  from a show "innerVerifyCalls (snd (verifyPostForkChild vm b child)) = innerVerifyCalls vm @ [innerBlk child]"
    by (simp add: verifyPostForkChild_def Let_def)
next
  let ?vm1 = "snd (verifyPostForkChild vm b child)"
  assume a: "innerBlk child' = innerBlk child \<and>
    (innerBlk child \<in> Tree vm \<or> fst (verifyPostForkChild vm b child) = None)"
  then have "innerBlk child' \<in> Tree ?vm1"
    using Tree_grows [of vm b child] Tree_after_success [of vm b child] by auto
  then have second: "innerVerifyCalls (snd (verifyPostForkChild ?vm1 b' child')) = innerVerifyCalls ?vm1"
    by (rule calls_recorded)
  show "length (innerVerifyCalls (snd (verifyPostForkChild ?vm1 b' child'))) \<le> length (innerVerifyCalls vm) + 1"
    using second calls_step [of vm b child] by auto
  show "innerVerifyCalls (snd (verifyPostForkChild ?vm1 b' child')) = innerVerifyCalls vm"
    if "innerBlk child \<in> Tree vm"
    using second calls_recorded [OF that, of b] by simp
qed

theorem verifyPostForkChild_idempotent_witness:
  "innerBlk (example_child 7) \<notin> Tree example_vm \<and>
   lineageChecks example_vm (example_parent 1000) (example_child 7) = None \<and>
   Verify_inner example_vm (innerBlk (example_child 7)) = None \<and>
   innerBlk (example_child 8) = innerBlk (example_child 7) \<and>
   fst (verifyPostForkChild example_vm (example_parent 1000) (example_child 7)) = None \<and>
   innerVerifyCalls (snd (verifyPostForkChild example_vm (example_parent 1000) (example_child 7)))
     = [example_inner] \<and>
   length (innerVerifyCalls (snd (verifyPostForkChild
      (snd (verifyPostForkChild example_vm (example_parent 1000) (example_child 7)))
      (example_parent 1000) (example_child 8)))) \<le> 1 \<and>
   innerBlk (example_child 7) \<in> Tree (example_vm\<lparr>Tree := {example_inner}\<rparr>) \<and>
   innerVerifyCalls (snd (verifyPostForkChild
      (snd (verifyPostForkChild (example_vm\<lparr>Tree := {example_inner}\<rparr>) (example_parent 1000) (example_child 7)))
      (example_parent 1000) (example_child 8))) = []"
proof -
  have h1: "innerBlk (example_child 7) \<notin> Tree example_vm"
    by (simp add: example_vm_def)
  have h2: "lineageChecks example_vm (example_parent 1000) (example_child 7) = None"
    by (simp add: lineageChecks_def verifyIsPreForkBlock_def example_vm_def example_parent_def
        example_child_def example_inner_def)
  have h3: "Verify_inner example_vm (innerBlk (example_child 7)) = None"
    by (simp add: example_vm_def)
  have h4: "innerBlk (example_child 8) = innerBlk (example_child 7)"
    by (simp add: example_child_def)
  have h5: "innerBlk (example_child 7) \<in> Tree (example_vm\<lparr>Tree := {example_inner}\<rparr>)"
    by (simp add: example_child_def)
  have c1: "innerVerifyCalls example_vm = []"
    by (simp add: example_vm_def)
  have c2: "innerVerifyCalls (example_vm\<lparr>Tree := {example_inner}\<rparr>) = []"
    by (simp add: example_vm_def)
  have e: "innerBlk (example_child 7) = example_inner"
    by (simp add: example_child_def)
  show ?thesis
    using h1 h2 h3 h4 h5 c1 c2 e
      verifyPostForkChild_idempotent [of "example_child 7" example_vm "example_parent 1000"
        "example_child 8" "example_parent 1000"]
      verifyPostForkChild_idempotent [of "example_child 7" "example_vm\<lparr>Tree := {example_inner}\<rparr>"
        "example_parent 1000" "example_child 8" "example_parent 1000"]
    by simp
qed

end
